theory Spec2Isabelle
  imports Main "HOL-Library.Char_ord" "HOL-Library.List_Lexorder" "HOL-Library.Multiset"
begin

section \<open>Bill receipt manager: the monthly report of \<open>webapp/main.py\<close>\<close>

text \<open>
  The development embeds the request handlers \<open>stats\<close> and \<open>monthly_report\<close> of
  \<open>src/webapp/main.py\<close> together with \<open>get_current_user_id\<close>.

  Conventions of the embedding.
  \<^item> A Python \<open>str\<close> is a \<open>string\<close>; one \<open>char\<close> stands for one character of the
    Python string. The order on strings (\<open>Char_ord\<close>, \<open>List_Lexorder\<close>) is the order
    SQLite's default \<open>BINARY\<close> collation uses for a \<open>TEXT\<close> column: character by
    character, a proper prefix first.
  \<^item> A Python \<open>float\<close> (the \<open>REAL\<close> column \<open>amount\<close>) is a value of a type variable
    \<open>'f\<close>. What Python does with it is passed in: \<open>str_float\<close> is the text an f-string
    produces for it, \<open>fadd\<close> and \<open>fzero\<close> are float addition and \<open>0.0\<close>.
  \<^item> The two tables are lists of rows, in the order of a table scan.
  \<^item> The filesystem is a map from paths to file contents.
  \<^item> An exception is a value of type \<open>error\<close>; a handler returns \<open>error + result\<close>.
  \<^item> Calls into SQLite and Pillow are modelled by what they are documented to do:
    \<open>LIKE\<close>, \<open>ORDER BY\<close>, \<open>Image.new\<close>, \<open>ImageDraw.text\<close>, \<open>Image.paste\<close>,
    \<open>Image.thumbnail\<close>, \<open>Image.save\<close>.
\<close>

subsection \<open>The database\<close>

text \<open>The tables \<open>users\<close> and \<open>bills\<close> created by \<open>init_db\<close>.\<close>

record user_row =
  u_id :: int
  u_username :: string
  u_password_hash :: string
  u_token :: string

record 'f bill_row =
  b_id :: int
  user_id :: int
  filename :: string
  amount :: 'f
  bill_date :: string
  bill_time :: string
  shop :: string
  uploaded_at :: string

record 'f database =
  users :: "user_row list"
  bills :: "'f bill_row list"

datatype error =
    HTTPException nat string
  | IndexError
  | FileNotFoundError
  | UnidentifiedImageError

text \<open>
  \<open>get_current_user_id\<close>: \<open>SELECT id FROM users WHERE token = ?\<close>, \<open>fetchone\<close>, and a
  401 when there is no row.
\<close>

definition get_current_user_id :: "'f database \<Rightarrow> string \<Rightarrow> error + int" where
  "get_current_user_id db tok =
     (case filter (\<lambda>u. u_token u = tok) (users db) of
        [] \<Rightarrow> Inl (HTTPException 401 ''Invalid or missing token'')
      | row # _ \<Rightarrow> Inr (u_id row))"

subsection \<open>SQLite's \<open>LIKE\<close> and the two queries\<close>

text \<open>
  \<open>LIKE\<close> without an \<open>ESCAPE\<close> clause: in the pattern \<open>%\<close> matches any run of
  characters (also the empty one), \<open>_\<close> matches exactly one character, and every other
  character matches itself, the ASCII letters without regard to case.
\<close>

definition ascii_lower :: "char \<Rightarrow> char" where
  "ascii_lower c =
     (if CHR ''A'' \<le> c \<and> c \<le> CHR ''Z'' then char_of (of_char c + (32::nat)) else c)"

fun sqlite_like :: "string \<Rightarrow> string \<Rightarrow> bool" where
  "sqlite_like [] s = (s = [])"
| "sqlite_like (p # ps) s =
     (if p = CHR ''%'' then
        sqlite_like ps s \<or> (case s of [] \<Rightarrow> False | _ # s' \<Rightarrow> sqlite_like (p # ps) s')
      else
        (case s of
           [] \<Rightarrow> False
         | c # s' \<Rightarrow> (p = CHR ''_'' \<or> ascii_lower p = ascii_lower c) \<and> sqlite_like ps s'))"

text \<open>
  The \<open>WHERE\<close> clause of \<open>monthly_report\<close>:
  \<open>user_id = ? AND bill_date LIKE ?\<close> with the parameters \<open>user_id\<close> and
  \<open>f"{year_month}%"\<close>.
\<close>

definition report_where :: "int \<Rightarrow> string \<Rightarrow> 'f bill_row \<Rightarrow> bool" where
  "report_where uid year_month b \<longleftrightarrow>
     user_id b = uid \<and> sqlite_like (year_month @ ''%'') (bill_date b)"

text \<open>
  \<open>ORDER BY bill_date\<close> names one sort key. What \<open>fetchall\<close> may return is any
  arrangement of the selected rows that is ascending in that key; SQL leaves the order
  of rows with equal keys open. The \<open>SELECT\<close> list of \<open>monthly_report\<close> is the five
  columns the page loop reads; the rows are kept whole here so that a statement can
  speak about their identifiers.
\<close>

definition report_fetchall :: "'f database \<Rightarrow> int \<Rightarrow> string \<Rightarrow> 'f bill_row list \<Rightarrow> bool" where
  "report_fetchall db uid year_month rows \<longleftrightarrow>
     mset rows = mset (filter (report_where uid year_month) (bills db)) \<and>
     sorted (map bill_date rows)"

text \<open>
  The query of \<open>stats\<close>:
  \<open>SELECT bill_date, amount FROM bills WHERE user_id = ? ORDER BY bill_date\<close>.
\<close>

definition stats_fetchall :: "'f database \<Rightarrow> int \<Rightarrow> 'f bill_row list \<Rightarrow> bool" where
  "stats_fetchall db uid rows \<longleftrightarrow>
     mset rows = mset (filter (\<lambda>b. user_id b = uid) (bills db)) \<and>
     sorted (map bill_date rows)"

subsection \<open>Images, pages and files\<close>

text \<open>
  An image is its size and where its pixels come from: decoded from a stored file, or
  one flat colour (\<open>Image.new(mode, size, colour)\<close>).
\<close>

datatype pixels = Decoded string | Flat string

record image =
  img_size :: "nat \<times> nat"
  img_pixels :: pixels

text \<open>
  A page is the canvas \<open>Image.new("RGB", (595, 842), "white")\<close> and what was drawn on
  it: the texts with their anchors, and the pasted images with theirs.
\<close>

record page =
  page_size :: "nat \<times> nat"
  background :: string
  texts :: "((nat \<times> nat) \<times> string) list"
  pastes :: "((nat \<times> nat) \<times> image) list"

text \<open>
  A file is a decodable image of some size, a PDF (the pages written, in order), a PDF
  that is still being written or whose writing was cut short, or something else.
\<close>

datatype file_content =
    Image_file nat nat
  | Pdf_document "page list"
  | Partial_pdf "page list"
  | Other_file

type_synonym filesystem = "string \<rightharpoonup> file_content"

text \<open>\<open>os.path.join\<close> of two components, on POSIX.\<close>

definition os_path_join :: "string \<Rightarrow> string \<Rightarrow> string" where
  "os_path_join a b =
     (if b \<noteq> [] \<and> hd b = CHR ''/'' then b
      else if a = [] \<or> last a = CHR ''/'' then a @ b
      else a @ ''/'' @ b)"

text \<open>\<open>Image.open(path).convert("RGB")\<close>: the decoded image, or the exception raised.\<close>

definition Image_open :: "filesystem \<Rightarrow> string \<Rightarrow> error + image" where
  "Image_open fs path =
     (case fs path of
        None \<Rightarrow> Inl FileNotFoundError
      | Some (Image_file w h) \<Rightarrow> Inr \<lparr>img_size = (w, h), img_pixels = Decoded path\<rparr>
      | Some _ \<Rightarrow> Inl UnidentifiedImageError)"

text \<open>
  \<open>Image.thumbnail(size)\<close> leaves an image that already fits the requested size as it
  is. Otherwise it resizes to a size Pillow computes in floating point from the aspect
  ratio; that computation is the parameter \<open>reduced_size\<close>.
\<close>

definition thumbnail ::
  "(nat \<times> nat \<Rightarrow> nat \<times> nat \<Rightarrow> nat \<times> nat) \<Rightarrow> nat \<times> nat \<Rightarrow> image \<Rightarrow> image" where
  "thumbnail reduced_size box im =
     (if fst (img_size im) \<le> fst box \<and> snd (img_size im) \<le> snd box then im
      else im\<lparr>img_size := reduced_size box (img_size im)\<rparr>)"

subsection \<open>The page loop of \<open>monthly_report\<close>\<close>

definition newline :: char where
  "newline = CHR 0x0A"

text \<open>The f-string drawn at the top left of a bill's page.\<close>

definition page_text :: "('f \<Rightarrow> string) \<Rightarrow> 'f bill_row \<Rightarrow> string" where
  "page_text str_float bill =
     ''Shop: '' @ shop bill @ [newline] @
     ''Amount: '' @ str_float (amount bill) @ [newline] @
     ''Date: '' @ bill_date bill @ '' '' @ bill_time bill"

definition blank_page :: page where
  "blank_page = \<lparr>page_size = (595, 842), background = ''white'', texts = [], pastes = []\<rparr>"

definition draw_text :: "nat \<times> nat \<Rightarrow> string \<Rightarrow> page \<Rightarrow> page" where
  "draw_text xy s p = p\<lparr>texts := texts p @ [(xy, s)]\<rparr>"

definition paste :: "image \<Rightarrow> nat \<times> nat \<Rightarrow> page \<Rightarrow> page" where
  "paste im xy p = p\<lparr>pastes := pastes p @ [(xy, im)]\<rparr>"

text \<open>The \<open>try\<close>/\<open>except Exception\<close> around \<open>Image.open\<close>.\<close>

definition load_bill_img :: "filesystem \<Rightarrow> string \<Rightarrow> image" where
  "load_bill_img fs image_path =
     (case Image_open fs image_path of
        Inr bill_img \<Rightarrow> bill_img
      | Inl _ \<Rightarrow> \<lparr>img_size = (200, 200), img_pixels = Flat ''gray''\<rparr>)"

text \<open>The body of the loop \<open>for bill in bills\<close>: the page appended for one bill.\<close>

definition bill_page ::
  "('f \<Rightarrow> string) \<Rightarrow> (nat \<times> nat \<Rightarrow> nat \<times> nat \<Rightarrow> nat \<times> nat) \<Rightarrow> filesystem \<Rightarrow>
   'f bill_row \<Rightarrow> page" where
  "bill_page str_float reduced_size fs bill =
     (let page = draw_text (20, 20) (page_text str_float bill) blank_page;
          image_path = os_path_join ''user_data/images'' (filename bill);
          bill_img = load_bill_img fs image_path;
          (max_width, max_height) = (555, 600);
          bill_img = thumbnail reduced_size (max_width, max_height) bill_img
      in paste bill_img (20, 150) page)"

fun page_loop ::
  "('f \<Rightarrow> string) \<Rightarrow> (nat \<times> nat \<Rightarrow> nat \<times> nat \<Rightarrow> nat \<times> nat) \<Rightarrow> filesystem \<Rightarrow>
   page list \<Rightarrow> 'f bill_row list \<Rightarrow> page list" where
  "page_loop str_float reduced_size fs pages [] = pages"
| "page_loop str_float reduced_size fs pages (bill # rest) =
     page_loop str_float reduced_size fs
       (pages @ [bill_page str_float reduced_size fs bill]) rest"

text \<open>The page added when the loop left \<open>pages\<close> empty.\<close>

definition no_bills_page :: page where
  "no_bills_page = draw_text (20, 400) ''No bills found for this month.'' blank_page"

text \<open>Lines 263 to 295: the loop, then \<open>if not pages\<close>.\<close>

definition make_pages ::
  "('f \<Rightarrow> string) \<Rightarrow> (nat \<times> nat \<Rightarrow> nat \<times> nat \<Rightarrow> nat \<times> nat) \<Rightarrow> filesystem \<Rightarrow>
   'f bill_row list \<Rightarrow> page list" where
  "make_pages str_float reduced_size fs fetched =
     (let pages = page_loop str_float reduced_size fs [] fetched
      in if pages = [] then pages @ [no_bills_page] else pages)"

subsection \<open>Saving the report and answering the request\<close>

text \<open>\<open>str\<close> of a Python \<open>int\<close>, as the f-string of \<open>report_path\<close> formats \<open>user_id\<close>.\<close>

definition digit_char :: "nat \<Rightarrow> char" where
  "digit_char d = ''0123456789'' ! d"

fun str_nat :: "nat \<Rightarrow> string" where
  "str_nat n = (if n < 10 then [digit_char n] else str_nat (n div 10) @ [digit_char (n mod 10)])"

declare str_nat.simps [simp del]

definition str_int :: "int \<Rightarrow> string" where
  "str_int i = (if i < 0 then CHR ''-'' # str_nat (nat (- i)) else str_nat (nat i))"

text \<open>Line 297: where the PDF is written. Line 299: the name offered for the download.\<close>

definition report_path :: "int \<Rightarrow> string \<Rightarrow> string" where
  "report_path uid year_month =
     os_path_join ''user_data'' (''report_'' @ str_int uid @ ''_'' @ year_month @ ''.pdf'')"

definition report_filename :: "string \<Rightarrow> string" where
  "report_filename year_month = ''report_'' @ year_month @ ''.pdf''"

text \<open>
  Line 298, \<open>pages[0].save(report_path, save_all=True, append_images=pages[1:])\<close>:
  \<open>pages[0]\<close> raises \<open>IndexError\<close> on an empty list; otherwise the file at
  \<open>report_path\<close> becomes the PDF of all pages, the first one first.
\<close>

definition save_pdf :: "string \<Rightarrow> page list \<Rightarrow> filesystem \<Rightarrow> error + filesystem" where
  "save_pdf path pages fs =
     (case pages of
        [] \<Rightarrow> Inl IndexError
      | first # append_images \<Rightarrow> Inr (fs(path \<mapsto> Pdf_document (first # append_images))))"

record file_response =
  resp_path :: string
  resp_filename :: string
  resp_media_type :: string

text \<open>
  \<open>monthly_report\<close>. The argument \<open>fetched\<close> is the list \<open>cur.fetchall()\<close> returned, a
  list with \<open>report_fetchall db user_id year_month fetched\<close>. The result is the
  exception raised, or the response together with the filesystem the handler leaves.
\<close>

definition monthly_report ::
  "('f \<Rightarrow> string) \<Rightarrow> (nat \<times> nat \<Rightarrow> nat \<times> nat \<Rightarrow> nat \<times> nat) \<Rightarrow> 'f database \<Rightarrow> filesystem \<Rightarrow>
   'f bill_row list \<Rightarrow> string \<Rightarrow> string \<Rightarrow> error + file_response \<times> filesystem" where
  "monthly_report str_float reduced_size db fs fetched year_month tok =
     (case get_current_user_id db tok of
        Inl e \<Rightarrow> Inl e
      | Inr uid \<Rightarrow>
          (let pages = make_pages str_float reduced_size fs fetched
           in case save_pdf (report_path uid year_month) pages fs of
                Inl e \<Rightarrow> Inl e
              | Inr fs' \<Rightarrow>
                  Inr (\<lparr>resp_path = report_path uid year_month,
                        resp_filename = report_filename year_month,
                        resp_media_type = ''application/pdf''\<rparr>, fs')))"



subsection \<open>The aggregation loop of \<open>stats\<close>\<close>

text \<open>
  Lines 230 to 233. \<open>bill_date[:7]\<close> is \<open>take 7\<close>; \<open>float(amount)\<close> of a float is the
  float itself.
\<close>

fun stats_loop ::
  "('f \<Rightarrow> 'f \<Rightarrow> 'f) \<Rightarrow> 'f \<Rightarrow> (string \<rightharpoonup> 'f) \<Rightarrow> 'f bill_row list \<Rightarrow> (string \<rightharpoonup> 'f)" where
  "stats_loop fadd fzero monthly_totals [] = monthly_totals"
| "stats_loop fadd fzero monthly_totals (row # rest) =
     (let month = take 7 (bill_date row)
      in stats_loop fadd fzero
           (monthly_totals(month \<mapsto>
              fadd (case monthly_totals month of None \<Rightarrow> fzero | Some t \<Rightarrow> t) (amount row)))
           rest)"

definition stats ::
  "('f \<Rightarrow> 'f \<Rightarrow> 'f) \<Rightarrow> 'f \<Rightarrow> 'f database \<Rightarrow> 'f bill_row list \<Rightarrow> string \<Rightarrow>
   error + (string \<rightharpoonup> 'f)" where
  "stats fadd fzero db fetched tok =
     (case get_current_user_id db tok of
        Inl e \<Rightarrow> Inl e
      | Inr uid \<Rightarrow> Inr (stats_loop fadd fzero Map.empty fetched))"

subsection \<open>Vocabulary of the statements\<close>

text \<open>A month key of the form \<open>YYYY-MM\<close>: four digits, a hyphen, two digits.\<close>

definition is_digit :: "char \<Rightarrow> bool" where
  "is_digit c \<longleftrightarrow> CHR ''0'' \<le> c \<and> c \<le> CHR ''9''"

definition well_formed_month_key :: "string \<Rightarrow> bool" where
  "well_formed_month_key k \<longleftrightarrow>
     length k = 7 \<and> list_all is_digit (take 4 k) \<and> k ! 4 = CHR ''-'' \<and>
     list_all is_digit (drop 5 k)"

text \<open>The value of a decimal digit, for reading back what \<open>str_nat\<close> wrote.\<close>

definition digit_val :: "char \<Rightarrow> nat" where
  "digit_val c = of_char c - 48"


subsection \<open>Example data\<close>

text \<open>
  One owner with three receipts in March 2024 (amounts 12.50, 9.00 and 42.10 on the
  2nd, the 15th and the 28th), and a fourth receipt that shares the date of the first.
  The amounts are arguments, so that an example fixes no representation of floats.
\<close>

definition owner_U :: user_row where
  "owner_U = \<lparr>u_id = 1, u_username = ''U'', u_password_hash = ''5e88'', u_token = ''tok-U''\<rparr>"

definition owner_V :: user_row where
  "owner_V = \<lparr>u_id = 2, u_username = ''V'', u_password_hash = ''9f86'', u_token = ''tok-V''\<rparr>"

definition receipt :: "int \<Rightarrow> string \<Rightarrow> 'f \<Rightarrow> string \<Rightarrow> string \<Rightarrow> 'f bill_row" where
  "receipt i d a t s =
     \<lparr>b_id = i, user_id = 1, filename = ''1711929600_'' @ s @ ''.jpg'', amount = a,
      bill_date = d, bill_time = t, shop = s, uploaded_at = ''2024-04-01T00:00:00''\<rparr>"

definition march_db :: "'f \<Rightarrow> 'f \<Rightarrow> 'f \<Rightarrow> 'f database" where
  "march_db a1 a2 a3 =
     \<lparr>users = [owner_U],
      bills = [receipt 1 ''2024-03-02'' a1 ''09:15'' ''Bakery'',
               receipt 2 ''2024-03-15'' a2 ''12:30'' ''Grocer'',
               receipt 3 ''2024-03-28'' a3 ''18:45'' ''Pharmacy'']\<rparr>"

definition two_owner_db :: "'f database" where
  "two_owner_db = \<lparr>users = [owner_U, owner_V], bills = []\<rparr>"


section \<open>Properties\<close>

subsection \<open>The page loop, the save and the handler\<close>

lemma page_loop_append:
  "page_loop sf rs fs acc bs = acc @ map (bill_page sf rs fs) bs"
  by (induction bs arbitrary: acc) simp_all

lemma make_pages_eq:
  "make_pages sf rs fs bs = (if bs = [] then [no_bills_page] else map (bill_page sf rs fs) bs)"
  by (simp add: make_pages_def page_loop_append)

lemma make_pages_nonempty: "make_pages sf rs fs bs \<noteq> []"
  by (simp add: make_pages_eq)

lemma save_pdf_nonempty:
  "pages \<noteq> [] \<Longrightarrow> save_pdf path pages fs = Inr (fs(path \<mapsto> Pdf_document pages))"
  by (cases pages) (simp_all add: save_pdf_def)

lemma monthly_report_authorised:
  "get_current_user_id db tok = Inr uid \<Longrightarrow>
   monthly_report sf rs db fs fetched ym tok =
     Inr (\<lparr>resp_path = report_path uid ym, resp_filename = report_filename ym,
           resp_media_type = ''application/pdf''\<rparr>,
          fs(report_path uid ym \<mapsto> Pdf_document (make_pages sf rs fs fetched)))"
  by (simp add: monthly_report_def save_pdf_nonempty make_pages_nonempty)

lemma monthly_report_unauthorised:
  "get_current_user_id db tok = Inl e \<Longrightarrow> monthly_report sf rs db fs fetched ym tok = Inl e"
  by (simp add: monthly_report_def)

lemma get_current_user_id_error:
  "get_current_user_id db tok = Inl e \<Longrightarrow> e = HTTPException 401 ''Invalid or missing token''"
  by (auto simp: get_current_user_id_def split: list.splits)









lemma monthly_report_not_IndexError_aux:
  "monthly_report sf rs db fs fetched ym tok \<noteq> Inl IndexError"
proof (cases "get_current_user_id db tok")
  case (Inl e)
  then show ?thesis
    using get_current_user_id_error [OF Inl] by (simp add: monthly_report_unauthorised)
next
  case (Inr uid)
  then show ?thesis by (simp add: monthly_report_authorised)
qed

subsection \<open>The serializer always gets a first page\<close>

text \<open>
  Claim C10. Whatever the query returned, the list of pages handed to the serializer is
  not empty: when the loop leaves it empty, the page with the message is appended before
  the save. So \<open>pages[0]\<close> is within bounds, the save never raises \<open>IndexError\<close>, and
  neither does the handler.
\<close>

theorem serializer_first_page_in_bounds:
  "make_pages sf rs fs fetched \<noteq> [] \<and>
   save_pdf path (make_pages sf rs fs fetched) fs' \<noteq> Inl IndexError \<and>
   monthly_report sf rs db fs fetched ym tok \<noteq> Inl IndexError"
  by (simp add: make_pages_nonempty save_pdf_nonempty monthly_report_not_IndexError_aux)

subsection \<open>A month without receipts\<close>



subsection \<open>One page per receipt\<close>



subsection \<open>A receipt whose image cannot be read\<close>






subsection \<open>The name offered for the download\<close>

text \<open>
  The path the report is written to is \<open>user_data/report_<user_id>_<year_month>.pdf\<close>.
  The decimal form of an integer determines the integer and holds no underscore, so the
  path determines both the owner and the month key.
\<close>

lemma digit_cases:
  "d < 10 \<Longrightarrow> d \<in> {0, 1, 2, 3, 4, 5, 6, 7, 8, 9::nat}"
  by auto

lemma digit_val_digit_char: "d < 10 \<Longrightarrow> digit_val (digit_char d) = d"
  using digit_cases [of d] by (auto simp: digit_val_def digit_char_def)

lemma digit_char_not_minus: "d < 10 \<Longrightarrow> digit_char d \<noteq> CHR ''-''"
  using digit_cases [of d] by (auto simp: digit_char_def)

lemma digit_char_not_underscore: "d < 10 \<Longrightarrow> digit_char d \<noteq> CHR ''_''"
  using digit_cases [of d] by (auto simp: digit_char_def)

lemma str_nat_value: "foldl (\<lambda>acc c. 10 * acc + digit_val c) 0 (str_nat n) = n"
proof (induction n rule: str_nat.induct)
  case (1 n)
  show ?case
  proof (cases "n < 10")
    case True
    then show ?thesis by (subst str_nat.simps) (simp add: digit_val_digit_char)
  next
    case False
    with "1" show ?thesis
      by (subst str_nat.simps) (simp add: digit_val_digit_char)
  qed
qed

lemma str_nat_inj: "str_nat m = str_nat n \<Longrightarrow> m = n"
  by (metis str_nat_value)

lemma str_nat_chars: "c \<in> set (str_nat n) \<Longrightarrow> c \<noteq> CHR ''-'' \<and> c \<noteq> CHR ''_''"
proof (induction n rule: str_nat.induct)
  case (1 n)
  show ?case
  proof (cases "n < 10")
    case True
    with "1.prems" show ?thesis
      by (subst (asm) str_nat.simps) (simp add: digit_char_not_minus digit_char_not_underscore)
  next
    case False
    with "1" show ?thesis
      by (subst (asm) (2) str_nat.simps)
        (auto simp: digit_char_not_minus digit_char_not_underscore)
  qed
qed

lemma str_nat_nonempty: "str_nat n \<noteq> []"
  by (subst str_nat.simps) simp

lemma str_int_inj: "str_int i = str_int j \<Longrightarrow> i = j"
proof -
  assume eq: "str_int i = str_int j"
  have hd_neg: "hd (str_int k) = CHR ''-'' \<longleftrightarrow> k < 0" for k
  proof (cases "k < 0")
    case True
    then show ?thesis by (simp add: str_int_def)
  next
    case False
    have "hd (str_nat (nat k)) \<in> set (str_nat (nat k))"
      using str_nat_nonempty by simp
    then have "hd (str_nat (nat k)) \<noteq> CHR ''-''"
      using str_nat_chars by blast
    with False show ?thesis by (simp add: str_int_def)
  qed
  from eq have "i < 0 \<longleftrightarrow> j < 0"
    using hd_neg [of i] hd_neg [of j] by simp
  then show ?thesis
    using eq str_nat_inj [of "nat i" "nat j"] str_nat_inj [of "nat (- i)" "nat (- j)"]
    by (auto simp: str_int_def split: if_splits)
qed

lemma report_path_eq:
  "report_path uid ym = ''user_data/report_'' @ str_int uid @ ''_'' @ ym @ ''.pdf''"
  by (simp add: report_path_def os_path_join_def)

lemma report_path_inj_owner:
  "report_path u ym = report_path v ym \<Longrightarrow> u = v"
  by (simp add: report_path_eq str_int_inj)

lemma split_at_first_underscore:
  "CHR ''_'' \<notin> set a \<Longrightarrow> CHR ''_'' \<notin> set b \<Longrightarrow> a @ CHR ''_'' # x = b @ CHR ''_'' # y \<Longrightarrow>
   a = b \<and> x = y"
proof (induction a arbitrary: b)
  case Nil
  then show ?case by (cases b) auto
next
  case (Cons c a)
  then show ?case by (cases b) auto
qed

lemma str_int_no_underscore: "CHR ''_'' \<notin> set (str_int i)"
  using str_nat_chars by (auto simp: str_int_def)

lemma report_path_inj:
  assumes "report_path u ym = report_path v ym'"
  shows "u = v \<and> ym = ym'"
proof -
  from assms have "str_int u @ CHR ''_'' # (ym @ ''.pdf'') = str_int v @ CHR ''_'' # (ym' @ ''.pdf'')"
    by (simp add: report_path_eq)
  then have "str_int u = str_int v \<and> ym @ ''.pdf'' = ym' @ ''.pdf''"
    by (intro split_at_first_underscore str_int_no_underscore)
  then show ?thesis
    by (simp add: str_int_inj)
qed

lemma monthly_report_Inr_cases:
  assumes "monthly_report sf rs db fs fetched ym tok = Inr (resp, fs')"
  obtains uid where "get_current_user_id db tok = Inr uid"
    and "resp = \<lparr>resp_path = report_path uid ym, resp_filename = report_filename ym,
           resp_media_type = ''application/pdf''\<rparr>"
    and "fs' = fs(report_path uid ym \<mapsto> Pdf_document (make_pages sf rs fs fetched))"
proof (cases "get_current_user_id db tok")
  case (Inl e)
  with assms show ?thesis by (simp add: monthly_report_unauthorised)
next
  case (Inr uid)
  with assms that [of uid] show ?thesis
    by (simp add: monthly_report_authorised)
qed

text \<open>
  Claim C8. Two requests for the same month key that both succeed, whoever their owners
  are and whatever the database, the files and the fetched rows, are answered with the
  same download name, \<open>report_<year_month>.pdf\<close>: it is made of the month key alone.
  The paths the two reports were written to are equal exactly when the two owners
  are.
\<close>

theorem download_name_independent_of_owner:
  assumes "monthly_report sf1 rs1 db1 fs1 fetched1 ym tok1 = Inr (resp1, fs1')"
    and "monthly_report sf2 rs2 db2 fs2 fetched2 ym tok2 = Inr (resp2, fs2')"
  shows "resp_filename resp1 = resp_filename resp2 \<and>
    resp_filename resp1 = ''report_'' @ ym @ ''.pdf'' \<and>
    (resp_path resp1 = resp_path resp2 \<longleftrightarrow>
       get_current_user_id db1 tok1 = get_current_user_id db2 tok2)"
proof -
  from assms(1) obtain u where
    u: "get_current_user_id db1 tok1 = Inr u" "resp_path resp1 = report_path u ym"
      "resp_filename resp1 = report_filename ym"
    by (rule monthly_report_Inr_cases) simp
  from assms(2) obtain v where
    v: "get_current_user_id db2 tok2 = Inr v" "resp_path resp2 = report_path v ym"
      "resp_filename resp2 = report_filename ym"
    by (rule monthly_report_Inr_cases) simp
  have "report_path u ym = report_path v ym \<longleftrightarrow> u = v"
    using report_path_inj by blast
  with u v show ?thesis
    by (simp add: report_filename_def)
qed

theorem download_name_independent_of_owner_witness:
  "monthly_report (\<lambda>a::string. a) (\<lambda>box sz. box) two_owner_db Map.empty [] ''2024-03'' ''tok-U'' =
     Inr (\<lparr>resp_path = ''user_data/report_1_2024-03.pdf'',
           resp_filename = ''report_2024-03.pdf'',
           resp_media_type = ''application/pdf''\<rparr>,
          [''user_data/report_1_2024-03.pdf'' \<mapsto> Pdf_document [no_bills_page]]) \<and>
   monthly_report (\<lambda>a::string. a) (\<lambda>box sz. box) two_owner_db Map.empty [] ''2024-03'' ''tok-V'' =
     Inr (\<lparr>resp_path = ''user_data/report_2_2024-03.pdf'',
           resp_filename = ''report_2024-03.pdf'',
           resp_media_type = ''application/pdf''\<rparr>,
          [''user_data/report_2_2024-03.pdf'' \<mapsto> Pdf_document [no_bills_page]]) \<and>
   get_current_user_id (two_owner_db :: string database) ''tok-U'' \<noteq>
     get_current_user_id (two_owner_db :: string database) ''tok-V''"
proof -
  let ?db = "two_owner_db :: string database"
  have u: "get_current_user_id ?db ''tok-U'' = Inr 1"
    by (simp add: get_current_user_id_def two_owner_db_def owner_U_def owner_V_def)
  have v: "get_current_user_id ?db ''tok-V'' = Inr 2"
    by (simp add: get_current_user_id_def two_owner_db_def owner_U_def owner_V_def)
  have p: "report_path 1 ''2024-03'' = ''user_data/report_1_2024-03.pdf''"
    "report_path 2 ''2024-03'' = ''user_data/report_2_2024-03.pdf''"
    by (simp_all add: report_path_def os_path_join_def str_int_def str_nat.simps digit_char_def)
  have r1: "monthly_report (\<lambda>a::string. a) (\<lambda>box sz. box) ?db Map.empty [] ''2024-03'' ''tok-U'' =
     Inr (\<lparr>resp_path = ''user_data/report_1_2024-03.pdf'',
           resp_filename = ''report_2024-03.pdf'',
           resp_media_type = ''application/pdf''\<rparr>,
          [''user_data/report_1_2024-03.pdf'' \<mapsto> Pdf_document [no_bills_page]])"
    using monthly_report_authorised [OF u, of "\<lambda>a. a" "\<lambda>box sz. box" Map.empty "[]" "''2024-03''"]
    by (simp add: p make_pages_eq report_filename_def)
  have r2: "monthly_report (\<lambda>a::string. a) (\<lambda>box sz. box) ?db Map.empty [] ''2024-03'' ''tok-V'' =
     Inr (\<lparr>resp_path = ''user_data/report_2_2024-03.pdf'',
           resp_filename = ''report_2024-03.pdf'',
           resp_media_type = ''application/pdf''\<rparr>,
          [''user_data/report_2_2024-03.pdf'' \<mapsto> Pdf_document [no_bills_page]])"
    using monthly_report_authorised [OF v, of "\<lambda>a. a" "\<lambda>box sz. box" Map.empty "[]" "''2024-03''"]
    by (simp add: p make_pages_eq report_filename_def)
  from download_name_independent_of_owner [OF r1 r2]
  have "get_current_user_id ?db ''tok-U'' \<noteq> get_current_user_id ?db ''tok-V''"
    by simp
  with r1 r2 show ?thesis by simp
qed

subsection \<open>The month key as a \<open>LIKE\<close> pattern\<close>

text \<open>
  A key made of characters below \<open>A\<close> in the ASCII table, none of them \<open>%\<close>, holds no
  letter and no wildcard (\<open>_\<close> comes after the capitals). Followed by \<open>%\<close> it matches
  exactly the strings that begin with it. A key of the form \<open>YYYY-MM\<close> is such a key.
\<close>

lemma sqlite_like_percent: "sqlite_like ''%'' s"
  by (induction s) simp_all

lemma ascii_lower_code: "of_char (ascii_lower c) =
  (if 65 \<le> (of_char c :: nat) \<and> (of_char c :: nat) \<le> 90 then of_char c + 32 else (of_char c :: nat))"
  by (simp add: ascii_lower_def less_eq_char_def)

lemma ascii_lower_eq_plain:
  assumes "(of_char p :: nat) < 65"
  shows "ascii_lower p = ascii_lower c \<longleftrightarrow> p = c"
proof
  assume eq: "ascii_lower p = ascii_lower c"
  then have "(of_char (ascii_lower p) :: nat) = of_char (ascii_lower c)" by simp
  with assms have "(of_char p :: nat) = of_char c"
    by (simp add: ascii_lower_code split: if_splits)
  then show "p = c" by simp
next
  assume "p = c"
  then show "ascii_lower p = ascii_lower c" by simp
qed

lemma is_digit_code: "is_digit c \<longleftrightarrow> 48 \<le> (of_char c :: nat) \<and> (of_char c :: nat) \<le> 57"
  by (simp add: is_digit_def less_eq_char_def)

lemma sqlite_like_plain_prefix:
  assumes "\<forall>c\<in>set k. (of_char c :: nat) < 65 \<and> c \<noteq> CHR ''%''"
  shows "sqlite_like (k @ ''%'') s \<longleftrightarrow> take (length k) s = k"
  using assms
proof (induction k arbitrary: s)
  case Nil
  then show ?case using sqlite_like_percent by simp
next
  case (Cons p k)
  then have p: "(of_char p :: nat) < 65" "p \<noteq> CHR ''%''" by simp_all
  then have pu: "p \<noteq> CHR ''_''" by auto
  show ?case
  proof (cases s)
    case Nil
    with p show ?thesis by simp
  next
    case (Cons c s')
    have "sqlite_like ((p # k) @ ''%'') (c # s') \<longleftrightarrow> p = c \<and> sqlite_like (k @ ''%'') s'"
      using p pu ascii_lower_eq_plain [OF p(1), of c] by simp
    also have "\<dots> \<longleftrightarrow> p = c \<and> take (length k) s' = k"
      using Cons.IH [of s'] Cons.prems by simp
    finally show ?thesis using Cons by auto
  qed
qed

lemma well_formed_month_key_chars:
  assumes "well_formed_month_key k"
  shows "length k = 7" and "\<forall>c\<in>set k. (of_char c :: nat) < 65 \<and> c \<noteq> CHR ''%''"
proof -
  show len: "length k = 7" using assms by (simp add: well_formed_month_key_def)
  have d: "is_digit c \<Longrightarrow> (of_char c :: nat) < 65 \<and> c \<noteq> CHR ''%''" for c
    by (auto simp: is_digit_code)
  have h: "(of_char (CHR ''-'') :: nat) < 65 \<and> CHR ''-'' \<noteq> CHR ''%''" by simp
  have "k ! 4 # drop 5 k = drop 4 k"
    using Cons_nth_drop_Suc [of 4 k] len by simp
  then have k: "take 4 k @ (k ! 4) # drop 5 k = k"
    by simp
  show "\<forall>c\<in>set k. (of_char c :: nat) < 65 \<and> c \<noteq> CHR ''%''"
  proof
    fix c assume "c \<in> set k"
    then have "c \<in> set (take 4 k) \<or> c = k ! 4 \<or> c \<in> set (drop 5 k)"
      by (subst (asm) k [symmetric]) auto
    then show "(of_char c :: nat) < 65 \<and> c \<noteq> CHR ''%''"
      using assms d h by (auto simp: well_formed_month_key_def list_all_iff)
  qed
qed

lemma month_key_selects_by_prefix:
  "well_formed_month_key k \<Longrightarrow> sqlite_like (k @ ''%'') d \<longleftrightarrow> take 7 d = k"
  using sqlite_like_plain_prefix [of k d] well_formed_month_key_chars [of k] by simp

lemma report_where_month:
  "well_formed_month_key k \<Longrightarrow>
   report_where uid k b \<longleftrightarrow> user_id b = uid \<and> take 7 (bill_date b) = k"
  by (simp add: report_where_def month_key_selects_by_prefix)

lemma stats_loop_lookup:
  "stats_loop fadd fzero m rows k =
     (if filter (\<lambda>b. take 7 (bill_date b) = k) rows = [] then m k
      else Some (foldl fadd (case m k of None \<Rightarrow> fzero | Some t \<Rightarrow> t)
                  (map amount (filter (\<lambda>b. take 7 (bill_date b) = k) rows))))"
proof (induction rows arbitrary: m)
  case Nil
  show ?case by simp
next
  case (Cons row rest)
  show ?case
  proof (cases "take 7 (bill_date row) = k")
    case True
    then show ?thesis
      by (simp add: Cons.IH Let_def)
  next
    case False
    then show ?thesis
      by (simp add: Cons.IH Let_def)
  qed
qed

text \<open>
  Claim C9. For a month key of the form \<open>YYYY-MM\<close>, the \<open>WHERE\<close> clause of the report
  selects a row of the owner exactly when the first seven characters of its date, the
  month \<open>stats\<close> files it under, are the key. The rows that \<open>stats\<close> adds up under the
  key are, as a multiset, the rows fetched for the report of that key; the total
  \<open>stats\<close> returns for the key is their sum in the order fetched, and there is no
  entry for the key exactly when the report has no row.
\<close>

theorem stats_and_report_same_month:
  assumes "well_formed_month_key k"
    and "get_current_user_id db tok = Inr uid"
    and "stats_fetchall (db :: 'f database) uid srows"
    and "report_fetchall db uid k rrows"
  shows "(\<forall>b :: 'f bill_row.
       report_where uid k b \<longleftrightarrow> user_id b = uid \<and> take 7 (bill_date b) = k) \<and>
    mset (filter (\<lambda>b. take 7 (bill_date b) = k) srows) = mset rrows \<and>
    (\<exists>totals. stats fadd fzero db srows tok = Inr totals \<and>
       totals k =
         (if rrows = [] then None
          else Some (foldl fadd fzero
                  (map amount (filter (\<lambda>b. take 7 (bill_date b) = k) srows)))))"
proof -
  have w: "report_where uid k b \<longleftrightarrow> user_id b = uid \<and> take 7 (bill_date b) = k" for b :: "'f bill_row"
    using assms(1) by (rule report_where_month)
  have "mset (filter (\<lambda>b. take 7 (bill_date b) = k) srows) =
      filter_mset (\<lambda>b. take 7 (bill_date b) = k) (mset srows)"
    by simp
  also have "mset srows = filter_mset (\<lambda>b. user_id b = uid) (mset (bills db))"
    using assms(3) by (simp add: stats_fetchall_def)
  also have "filter_mset (\<lambda>b. take 7 (bill_date b) = k) \<dots> =
      filter_mset (report_where uid k) (mset (bills db))"
    by (rule multiset_eqI) (simp add: w)
  also have "\<dots> = mset rrows"
    using assms(4) by (simp add: report_fetchall_def)
  finally have ms: "mset (filter (\<lambda>b. take 7 (bill_date b) = k) srows) = mset rrows" .
  then have e: "filter (\<lambda>b. take 7 (bill_date b) = k) srows = [] \<longleftrightarrow> rrows = []"
    by (metis mset_zero_iff)
  have st: "stats fadd fzero db srows tok = Inr (stats_loop fadd fzero Map.empty srows)"
    using assms(2) by (simp add: stats_def)
  have tk: "stats_loop fadd fzero Map.empty srows k =
         (if rrows = [] then None
          else Some (foldl fadd fzero
                  (map amount (filter (\<lambda>b. take 7 (bill_date b) = k) srows))))"
    by (simp add: stats_loop_lookup e)
  show ?thesis
    apply (intro conjI allI)
    subgoal by (rule w)
    subgoal by (rule ms)
    subgoal using st tk by blast
    done
qed

theorem stats_and_report_same_month_witness:
  "well_formed_month_key ''2024-03'' \<and>
   get_current_user_id (march_db (1250::int) 900 4210) ''tok-U'' = Inr 1 \<and>
   stats_fetchall (march_db (1250::int) 900 4210) 1 (bills (march_db (1250::int) 900 4210)) \<and>
   report_fetchall (march_db (1250::int) 900 4210) 1 ''2024-03''
     (bills (march_db (1250::int) 900 4210)) \<and>
   (\<exists>totals. stats (+) 0 (march_db (1250::int) 900 4210) (bills (march_db (1250::int) 900 4210))
        ''tok-U'' = Inr totals \<and>
      totals ''2024-03'' = Some 6360)"
proof -
  let ?db = "march_db (1250::int) 900 4210"
  have h0: "well_formed_month_key ''2024-03''"
    by (simp add: well_formed_month_key_def is_digit_def)
  have h1: "get_current_user_id ?db ''tok-U'' = Inr 1"
    by (simp add: get_current_user_id_def march_db_def owner_U_def)
  have h2: "stats_fetchall ?db 1 (bills ?db)"
    by (simp add: stats_fetchall_def march_db_def receipt_def)
  have f: "filter (report_where 1 ''2024-03'') (bills ?db) = bills ?db"
    by (simp add: march_db_def report_where_def receipt_def ascii_lower_def)
  have h3: "report_fetchall ?db 1 ''2024-03'' (bills ?db)"
    unfolding report_fetchall_def f by (simp add: march_db_def receipt_def)
  from stats_and_report_same_month [OF h0 h1 h2 h3, of "(+)" 0]
  obtain totals where
    t: "stats (+) 0 ?db (bills ?db) ''tok-U'' = Inr totals"
    and v: "totals ''2024-03'' =
         (if bills ?db = [] then None
          else Some (foldl (+) 0
                  (map amount (filter (\<lambda>b. take 7 (bill_date b) = ''2024-03'') (bills ?db)))))"
    by blast
  have "totals ''2024-03'' = Some 6360"
    unfolding v by (simp add: march_db_def receipt_def)
  with t h0 h1 h2 h3 show ?thesis by blast
qed

subsection \<open>Month keys of any shape\<close>





subsection \<open>The order of the pages\<close>






subsection \<open>How the report is published\<close>







end
